theory Spec2Isabelle
  imports Main "HOL-Library.Word"
begin

section \<open>The tracker scraper of tracker\_scraper.go\<close>

text \<open>
  A shallow embedding of \<^verbatim>\<open>tracker_scraper.go\<close>: the address resolver \<^verbatim>\<open>getIp\<close>, the
  endpoint builder \<^verbatim>\<open>trackerUrl\<close>, the single announce attempt \<^verbatim>\<open>announce\<close>, the
  scheduling loop \<^verbatim>\<open>Run\<close> and the status reporter \<^verbatim>\<open>statusLine\<close>.

  Everything the scraper reads from outside itself (the resolver, the client's blocklist,
  the torrent's request builder, the tracker client and the clock) is collected in a record
  \<open>world\<close>, one value per announce attempt. The signals the loop selects on are given as
  a list of observations, one per pass through the label \<^verbatim>\<open>wait:\<close>.
\<close>

subsection \<open>Durations and instants (package time)\<close>

text \<open>
  \<^verbatim>\<open>time.Duration\<close> is an \<^verbatim>\<open>int64\<close> count of nanoseconds. An instant is the number of
  nanoseconds since the zero \<^verbatim>\<open>time.Time\<close>. \<^verbatim>\<open>Time.Sub\<close> saturates at the two ends of
  \<^verbatim>\<open>int64\<close>; \<^verbatim>\<open>time.Until t\<close> is \<^verbatim>\<open>t.Sub(time.Now())\<close>, with the clock reading passed in.
\<close>

type_synonym Duration = int
type_synonym Time = int

definition Second :: Duration where
  "Second = 1000000000"

definition Minute :: Duration where
  "Minute = 60 * Second"

definition minDuration :: Duration where
  "minDuration = - (2 ^ 63)"

definition maxDuration :: Duration where
  "maxDuration = 2 ^ 63 - 1"

definition Time_Add :: "Time \<Rightarrow> Duration \<Rightarrow> Time" where
  "Time_Add t d = t + d"

definition Time_Sub :: "Time \<Rightarrow> Time \<Rightarrow> Duration" where
  "Time_Sub t v =
     (if t - v < minDuration then minDuration
      else if maxDuration < t - v then maxDuration
      else t - v)"

definition Until :: "Time \<Rightarrow> Time \<Rightarrow> Duration" where
  "Until t now = Time_Sub t now"

definition IsZero :: "Time \<Rightarrow> bool" where
  "IsZero t \<longleftrightarrow> t = 0"

text \<open>
  A reading of the clock, as \<^verbatim>\<open>time.Now\<close> returns it, is an instant after the zero
  \<^verbatim>\<open>time.Time\<close>. \<open>reading\<close> is the instant as a \<open>Time\<close>; \<open>instant_of\<close> makes a
  reading from a positive number of nanoseconds.
\<close>

typedef instant = "{t :: int. 0 < t}"
  by (rule exI [of _ 1]) simp

setup_lifting type_definition_instant

lift_definition reading :: "instant \<Rightarrow> Time" is "\<lambda>t. t" .

lift_definition instant_of :: "int \<Rightarrow> instant" is "\<lambda>t. if 0 < t then t else 1"
  by simp

subsection \<open>Errors\<close>

text \<open>
  A Go \<^verbatim>\<open>error\<close> is either a value made in this file by \<^verbatim>\<open>errors.New\<close> or
  \<^verbatim>\<open>fmt.Errorf\<close> (an \<open>errorString\<close>), or a value handed back by a library call
  (\<^verbatim>\<open>net.LookupIP\<close>, \<^verbatim>\<open>tracker.Announce.Do\<close>), of which only the text is kept.
\<close>

datatype error = errorString string | LibError string

fun Error :: "error \<Rightarrow> string" where
  "Error (errorString s) = s"
| "Error (LibError s) = s"

definition Errorf :: "string \<Rightarrow> error \<Rightarrow> error" where
  \<comment> \<open>\<^verbatim>\<open>fmt.Errorf(prefix + "%s", err)\<close>\<close>
  "Errorf prefix err = errorString (prefix @ Error err)"

subsection \<open>Addresses (package net)\<close>

text \<open>\<^verbatim>\<open>net.IP\<close> is a byte slice; the nil slice is the empty list.\<close>

type_synonym IP = "8 word list"

definition To4 :: "IP \<Rightarrow> IP option" where
  "To4 ip =
     (if length ip = 4 then Some ip
      else if length ip = 16 \<and> take 10 ip = replicate 10 0 \<and> ip ! 10 = 0xff \<and> ip ! 11 = 0xff
      then Some (drop 12 ip)
      else None)"

subsection \<open>URLs (package net/url)\<close>

text \<open>
  The fields of \<^verbatim>\<open>url.URL\<close> that a tracker URL uses. \<open>Hostname\<close> and \<open>Port\<close> follow
  \<^verbatim>\<open>splitHostPort\<close>: the port is what follows the last colon of \<open>Host\<close> when that is
  empty or all digits, and the host loses a pair of enclosing square brackets.
\<close>

record URL =
  Scheme :: string
  Host :: string
  Path :: string
  RawQuery :: string

fun LastIndexByte :: "string \<Rightarrow> char \<Rightarrow> nat option" where
  "LastIndexByte [] c = None"
| "LastIndexByte (x # xs) c =
     (case LastIndexByte xs c of
        Some i \<Rightarrow> Some (Suc i)
      | None \<Rightarrow> if x = c then Some 0 else None)"

definition isDigit :: "char \<Rightarrow> bool" where
  "isDigit b \<longleftrightarrow> (48::nat) \<le> of_char b \<and> of_char b \<le> (57::nat)"

definition validOptionalPort :: "string \<Rightarrow> bool" where
  "validOptionalPort port =
     (case port of
        [] \<Rightarrow> True
      | b # bs \<Rightarrow> b = CHR '':'' \<and> list_all isDigit bs)"

definition splitHostPort :: "string \<Rightarrow> string \<times> string" where
  "splitHostPort hostPort =
     (let (host, port) =
        (case LastIndexByte hostPort CHR '':'' of
           Some colon \<Rightarrow>
             if validOptionalPort (drop colon hostPort)
             then (take colon hostPort, drop (Suc colon) hostPort)
             else (hostPort, [])
         | None \<Rightarrow> (hostPort, []))
      in if host \<noteq> [] \<and> hd host = CHR ''['' \<and> last host = CHR '']''
         then (butlast (tl host), port)
         else (host, port))"

definition Hostname :: "URL \<Rightarrow> string" where
  "Hostname url = fst (splitHostPort (Host url))"

definition Port :: "URL \<Rightarrow> string" where
  "Port url = snd (splitHostPort (Host url))"

subsection \<open>Formatting (packages strconv, fmt, net, net/url, time)\<close>

text \<open>Decimal digits of an integer, as \<^verbatim>\<open>%d\<close> prints them.\<close>

definition decDigit :: "nat \<Rightarrow> char" where
  "decDigit n = ''0123456789'' ! (n mod 10)"

fun formatUint :: "nat \<Rightarrow> string" where
  "formatUint n =
     (if n < 10 then [decDigit n]
      else formatUint (n div 10) @ [decDigit (n mod 10)])"

declare formatUint.simps [simp del]


definition hexDigit :: "nat \<Rightarrow> char" where
  "hexDigit n = ''0123456789abcdef'' ! (n mod 16)"

fun formatHex :: "nat \<Rightarrow> string" where
  "formatHex n =
     (if n < 16 then [hexDigit n]
      else formatHex (n div 16) @ [hexDigit (n mod 16)])"

declare formatHex.simps [simp del]

definition hexByte :: "nat \<Rightarrow> string" where
  "hexByte n = [hexDigit (n div 16), hexDigit (n mod 16)]"

fun join :: "string \<Rightarrow> string list \<Rightarrow> string" where
  "join sep [] = []"
| "join sep [x] = x"
| "join sep (x # y # ys) = x @ sep @ join sep (y # ys)"

text \<open>
  \<^verbatim>\<open>IP.String\<close>: \<^verbatim>\<open><nil>\<close> for the empty slice, dotted decimal for what \<open>To4\<close>
  accepts, \<^verbatim>\<open>?\<close> and the bytes in hexadecimal for a slice of another length than 16, and
  otherwise eight hexadecimal groups, where the first longest run of two or more zero groups
  is written \<^verbatim>\<open>::\<close>.
\<close>

fun groups16 :: "8 word list \<Rightarrow> nat list" where
  "groups16 (hi # lo # bs) = (256 * unat hi + unat lo) # groups16 bs"
| "groups16 bs = []"

definition zeroRunAt :: "nat list \<Rightarrow> nat \<Rightarrow> nat" where
  "zeroRunAt gs i = length (takeWhile (\<lambda>g. g = 0) (drop i gs))"

definition longestZeroRun :: "nat list \<Rightarrow> nat \<times> nat" where
  \<comment> \<open>start and length of the run to elide; length 0 when there is none\<close>
  "longestZeroRun gs =
     fold (\<lambda>i (start, len).
             if 2 \<le> zeroRunAt gs i \<and> len < zeroRunAt gs i then (i, zeroRunAt gs i)
             else (start, len))
          [0..<length gs] (0, 0)"

definition IP_String :: "IP \<Rightarrow> string" where
  "IP_String ip =
     (if length ip = 0 then ''<nil>''
      else case To4 ip of
        Some p4 \<Rightarrow> join ''.'' (map (\<lambda>b. formatUint (unat b)) p4)
      | None \<Rightarrow>
          if length ip \<noteq> 16 then CHR ''?'' # concat (map (\<lambda>b. hexByte (unat b)) ip)
          else
            (let gs = groups16 ip; (start, len) = longestZeroRun gs
             in if len = 0 then join '':'' (map formatHex gs)
                else join '':'' (map formatHex (take start gs)) @ ''::'' @
                     join '':'' (map formatHex (drop (start + len) gs))))"

definition JoinHostPort :: "string \<Rightarrow> string \<Rightarrow> string" where
  "JoinHostPort host port =
     (if CHR '':'' \<in> set host then ''['' @ host @ '']:'' @ port
      else host @ '':'' @ port)"

text \<open>
  \<^verbatim>\<open>URL.String\<close> for a URL with the four fields above. Percent-escaping is left out:
  the rendering is that of Go for hosts and paths made of characters that need no escape,
  as those of a tracker URL and of \<open>JoinHostPort\<close> applied to an address are.
\<close>

definition URL_String :: "URL \<Rightarrow> string" where
  "URL_String url =
     (let buf = (if Scheme url \<noteq> [] then Scheme url @ '':'' else []);
          buf = (if Scheme url \<noteq> [] \<or> Host url \<noteq> []
                 then buf @ (if Host url \<noteq> [] \<or> Path url \<noteq> [] then ''//'' else []) @ Host url
                 else buf);
          buf = (if Path url \<noteq> [] \<and> hd (Path url) \<noteq> CHR ''/'' \<and> Host url \<noteq> []
                 then buf @ ''/'' else buf);
          buf = (if buf = [] \<and> CHR '':'' \<in> set (takeWhile (\<lambda>c. c \<noteq> CHR ''/'') (Path url))
                 then ''./'' else buf);
          buf = buf @ Path url
      in if RawQuery url \<noteq> [] then buf @ ''?'' @ RawQuery url else buf)"




text \<open>
  \<^verbatim>\<open>Duration.String\<close> for a non-negative whole number of seconds, the only values
  \<^verbatim>\<open>statusLine\<close> passes to it: the seconds modulo 60 followed by \<^verbatim>\<open>s\<close>, preceded by
  the minutes modulo 60 and \<^verbatim>\<open>m\<close> when there is a minute or more, preceded by the hours and
  \<^verbatim>\<open>h\<close> when there is an hour or more.
\<close>

definition Duration_String :: "Duration \<Rightarrow> string" where
  "Duration_String d =
     (let secs = nat (d div Second); mins = secs div 60; hours = mins div 60
      in (if 0 < hours then formatUint hours @ ''h'' else []) @
         (if 0 < mins then formatUint (mins mod 60) @ ''m'' else []) @
         formatUint (secs mod 60) @ ''s'')"


subsection \<open>The scraper and its surroundings\<close>

datatype AnnounceEvent = NoneEvent | CompletedEvent | Started | Stopped

record trackerAnnounceResult =
  Err :: "error option"
  NumPeers :: int
  Interval :: Duration
  Completed :: Time

record trackerScraper =
  u :: URL
  lastAnnounce :: trackerAnnounceResult

text \<open>The arguments of one call of the tracker client, and what it answers.\<close>

record AnnounceRequest =
  Event :: AnnounceEvent

record Peer =
  PeerIP :: IP
  PeerPort :: nat

record Announce =
  TrackerUrl :: string
  Request :: AnnounceRequest
  HostHeader :: string
  ServerName :: string
  UdpNetwork :: string

record AnnounceResponse =
  ResInterval :: "32 word"
  Peers :: "Peer list"

text \<open>
  What one announce attempt sees of the world: the resolver's answer for a host name,
  the client's blocklist, the torrent's request for an event, the tracker client's answer
  to a call, and the clock. The resolver and the tracker client block, so the clock is
  given by its readings at three moments: when the attempt is entered, when the resolver
  has answered, and when the tracker client has answered.
\<close>

record world =
  LookupIP :: "string \<Rightarrow> string + IP list"
  ipIsBlocked :: "IP \<Rightarrow> bool"
  announceRequest :: "AnnounceEvent \<Rightarrow> AnnounceRequest"
  Do :: "Announce \<Rightarrow> string + AnnounceResponse"
  Entered :: instant
  Resolved :: instant
  Answered :: instant

subsection \<open>getIp\<close>

text \<open>
  The \<^verbatim>\<open>for _, ip = range ips\<close> loop. The first argument is the current value of the
  named result \<^verbatim>\<open>ip\<close>, which the loop overwrites with every candidate it looks at.
\<close>

fun getIp_range :: "(IP \<Rightarrow> bool) \<Rightarrow> string \<Rightarrow> IP \<Rightarrow> IP list \<Rightarrow> IP \<times> error option" where
  "getIp_range blocked scheme ip [] = (ip, Some (errorString ''no acceptable ips''))"
| "getIp_range blocked scheme ip0 (ip # ips) =
     (if blocked ip then getIp_range blocked scheme ip ips
      else if scheme = ''udp4'' then
        (if To4 ip = None then getIp_range blocked scheme ip ips else (ip, None))
      else if scheme = ''udp6'' then
        (if To4 ip \<noteq> None then getIp_range blocked scheme ip ips else (ip, None))
      else (ip, None))"

definition getIp :: "world \<Rightarrow> trackerScraper \<Rightarrow> IP \<times> error option" where
  "getIp w me =
     (case LookupIP w (Hostname (u me)) of
        Inl e \<Rightarrow> ([], Some (LibError e))
      | Inr ips \<Rightarrow>
          if length ips = 0 then ([], Some (errorString ''no ips''))
          else getIp_range (ipIsBlocked w) (Scheme (u me)) [] ips)"

text \<open>A candidate survives when it is not blocked and its family fits the scheme.\<close>

definition acceptable :: "(IP \<Rightarrow> bool) \<Rightarrow> string \<Rightarrow> IP \<Rightarrow> bool" where
  "acceptable blocked scheme ip \<longleftrightarrow>
     \<not> blocked ip \<and>
     (scheme = ''udp4'' \<longrightarrow> To4 ip \<noteq> None) \<and>
     (scheme = ''udp6'' \<longrightarrow> To4 ip = None)"

text \<open>
  The two kinds of failure the resolver can report. A resolution failure is the resolver's
  own error or the error made for an empty answer; the other kind is the error made when
  the loop over the candidates ends without returning.
\<close>

definition isResolutionFailure :: "error \<Rightarrow> bool" where
  "isResolutionFailure e \<longleftrightarrow> (case e of LibError t \<Rightarrow> True | errorString t \<Rightarrow> t = ''no ips'')"

definition isNoAcceptableAddress :: "error \<Rightarrow> bool" where
  "isNoAcceptableAddress e \<longleftrightarrow> e = errorString ''no acceptable ips''"

subsection \<open>trackerUrl\<close>

definition trackerUrl :: "trackerScraper \<Rightarrow> IP \<Rightarrow> string" where
  "trackerUrl me ip =
     (let url = u me;
          url = (if Port url \<noteq> [] then url\<lparr>Host := JoinHostPort (IP_String ip) (Port url)\<rparr>
                 else url)
      in URL_String url)"

subsection \<open>announce\<close>

text \<open>
  \<open>announce_body\<close> is the function up to its \<^verbatim>\<open>return\<close> statements: the result as the
  body leaves it, the peers it hands to \<^verbatim>\<open>AddPeers\<close>, and the clock as it stands when
  the body returns. The clock is passed along as state: it stands at \<open>Entered\<close> when the
  body starts, at \<open>Resolved\<close> once \<^verbatim>\<open>getIp\<close> has returned and at \<open>Answered\<close> once
  \<^verbatim>\<open>Do\<close> has returned. \<open>announce\<close> then runs the deferred function, where
  \<^verbatim>\<open>time.Now()\<close> reads the clock as the body left it. The conversion
  \<^verbatim>\<open>time.Duration(res.Interval) * time.Second\<close> of a 32-bit count of seconds cannot
  leave the range of \<^verbatim>\<open>int64\<close>. Locking and logging are left out.
\<close>

definition announce_body ::
  "world \<Rightarrow> trackerScraper \<Rightarrow> AnnounceEvent \<Rightarrow>
     trackerAnnounceResult \<times> Peer list \<times> instant" where
  "announce_body w me event =
     (let clock = Entered w;
          ret = \<lparr>Err = None, NumPeers = 0, Interval = 0, Completed = 0\<rparr>;
          ret = ret\<lparr>Interval := Minute\<rparr>;
          (ip, err) = getIp w me;
          clock = Resolved w
      in case err of
           Some err \<Rightarrow> (ret\<lparr>Err := Some (Errorf ''error getting ip: '' err)\<rparr>, [], clock)
         | None \<Rightarrow>
             (let req = announceRequest w event;
                  answer = Do w \<lparr>TrackerUrl = trackerUrl me ip,
                                Request = req,
                                HostHeader = Host (u me),
                                ServerName = Hostname (u me),
                                UdpNetwork = Scheme (u me)\<rparr>;
                  clock = Answered w
              in case answer of
                   Inl err \<Rightarrow>
                     (ret\<lparr>Err := Some (Errorf ''error announcing: '' (LibError err))\<rparr>, [],
                      clock)
                 | Inr res \<Rightarrow>
                     (ret\<lparr>NumPeers := int (length (Peers res)),
                           Interval := sint (ResInterval res) * Second\<rparr>,
                      Peers res, clock)))"

definition announce ::
  "world \<Rightarrow> trackerScraper \<Rightarrow> AnnounceEvent \<Rightarrow> trackerAnnounceResult \<times> Peer list" where
  "announce w me event =
     (let (ret, added, clock) = announce_body w me event
      in (ret\<lparr>Completed := reading clock\<rparr>, added))"

subsection \<open>Run\<close>

text \<open>
  One pass through the label \<^verbatim>\<open>wait:\<close> observes two things of the session: whether the
  channel of the want-peers event is ready at the non-blocking \<^verbatim>\<open>select\<close>, and the order
  in which the channels of the blocking \<^verbatim>\<open>select\<close> become ready after that.
\<close>

datatype signal = SigClosed | SigWantPeers | SigTimer

record cycle =
  wantPeersReady :: bool
  signals :: "signal list"

text \<open>The interval computed at the label: the result's interval, at least a minute.\<close>

definition Run_interval :: "trackerAnnounceResult \<Rightarrow> Duration" where
  "Run_interval ar = (let interval = Interval ar in if interval < Minute then Minute else interval)"

text \<open>
  The non-blocking \<^verbatim>\<open>select\<close>. It returns the interval and whether the variable
  \<^verbatim>\<open>wantPeers\<close> still holds the channel (\<open>True\<close>) or has been set to \<^verbatim>\<open>nil\<close>.
\<close>

definition Run_poll :: "bool \<Rightarrow> Duration \<Rightarrow> Duration \<times> bool" where
  "Run_poll ready interval =
     (if ready then ((if interval > Minute then Minute else interval), False)
      else (interval, True))"

text \<open>
  The blocking \<^verbatim>\<open>select\<close>: it takes the case of the first channel that becomes ready,
  except that a receive from the \<^verbatim>\<open>nil\<close> channel is never taken. \<open>None\<close> means that
  the observed signals end while the loop is still blocked.
\<close>

fun Run_select :: "bool \<Rightarrow> signal list \<Rightarrow> signal option" where
  "Run_select wantPeers [] = None"
| "Run_select wantPeers (s # ss) =
     (if s = SigWantPeers \<and> \<not> wantPeers then Run_select wantPeers ss else Some s)"

text \<open>
  What a run does, as far as the given worlds and cycles reach: the announce attempts with
  their events and results, and the waits with their interval and deadline.
\<close>

datatype action =
  Announced AnnounceEvent trackerAnnounceResult
| Wait Duration Time

datatype status = Returned | Pending

type_synonym run = "action list \<times> trackerScraper \<times> status"

definition emit :: "action \<Rightarrow> run \<Rightarrow> run" where
  "emit a r = (a # fst r, snd r)"

definition announceStopped :: "trackerScraper \<Rightarrow> world list \<Rightarrow> run" where
  "announceStopped me ws =
     (case ws of
        [] \<Rightarrow> ([], me, Pending)
      | w # ws' \<Rightarrow> ([Announced Stopped (fst (announce w me Stopped))], me, Returned))"

text \<open>
  \<open>Run_from me e ws cs\<close> is the loop from the top of its body with the event \<open>e\<close>;
  \<open>Run_wait me ar ws cs\<close> is the loop from the label \<^verbatim>\<open>wait:\<close> with the last result
  \<open>ar\<close>. Each announce attempt uses up one world, each pass through the label one cycle.
  The deferred \<open>announceStopped\<close> runs where the loop returns.
\<close>

fun Run_from :: "trackerScraper \<Rightarrow> AnnounceEvent \<Rightarrow> world list \<Rightarrow> cycle list \<Rightarrow> run"
  and Run_wait :: "trackerScraper \<Rightarrow> trackerAnnounceResult \<Rightarrow> world list \<Rightarrow> cycle list \<Rightarrow> run"
where
  "Run_from me e [] cs = ([], me, Pending)"
| "Run_from me e (w # ws) cs =
     (let ar = fst (announce w me e);
          me = me\<lparr>lastAnnounce := ar\<rparr>
      in emit (Announced e ar) (Run_wait me ar ws cs))"
| "Run_wait me ar ws [] = ([], me, Pending)"
| "Run_wait me ar ws (c # cs) =
     (let interval = Run_interval ar;
          (interval, wantPeers) = Run_poll (wantPeersReady c) interval
      in emit (Wait interval (Time_Add (Completed ar) interval))
           (case Run_select wantPeers (signals c) of
              None \<Rightarrow> ([], me, Pending)
            | Some SigClosed \<Rightarrow> announceStopped me ws
            | Some SigWantPeers \<Rightarrow> Run_wait me ar ws cs
            | Some SigTimer \<Rightarrow> Run_from me NoneEvent ws cs))"

definition Run :: "trackerScraper \<Rightarrow> world list \<Rightarrow> cycle list \<Rightarrow> run" where
  "Run me ws cs = Run_from me Started ws cs"

text \<open>The events of the announce attempts of a trace, in order.\<close>

fun events :: "action list \<Rightarrow> AnnounceEvent list" where
  "events [] = []"
| "events (Announced e ar # as) = e # events as"
| "events (Wait interval deadline # as) = events as"

text \<open>The event that closes a trace: \<open>Stopped\<close> when the run has returned.\<close>

definition closing :: "run \<Rightarrow> AnnounceEvent list" where
  "closing r = (if snd (snd r) = Returned then [Stopped] else [])"

definition ends_with_Stopped :: "run \<Rightarrow> bool" where
  "ends_with_Stopped r \<longleftrightarrow> (\<exists>pre ar. fst r = pre @ [Announced Stopped ar])"

subsection \<open>statusLine\<close>

text \<open>
  The clock reading of \<^verbatim>\<open>time.Until\<close> is the second argument. The remaining time is
  positive where it is divided, so that Go's truncating division is \<open>div\<close>.
\<close>

definition statusLine_next :: "trackerScraper \<Rightarrow> Time \<Rightarrow> string" where
  "statusLine_next ts now =
     (let na = Until (Time_Add (Completed (lastAnnounce ts)) (Interval (lastAnnounce ts))) now
      in if na > 0 then
           (let na = na div Second; na = na * Second in Duration_String na)
         else ''anytime'')"



subsection \<open>Example environments\<close>

text \<open>
  Two example environments for \<open>getIp\<close>. In \<open>world_mixed\<close> the name resolves to a
  blocked IPv4 address, an allowed IPv4 address and an allowed IPv6 address, in this order.
  In \<open>world_blocked\<close> it resolves to the blocked address alone.
\<close>

definition ip_blocked4 :: IP where
  "ip_blocked4 = [10, 0, 0, 1]"

definition ip_allowed4 :: IP where
  "ip_allowed4 = [192, 0, 2, 7]"

definition ip_allowed6 :: IP where
  "ip_allowed6 = [0x20, 0x01, 0x0d, 0xb8, 0, 0, 0, 0, 0, 0, 0, 0, 0, 0, 0, 1]"

definition no_response :: "Announce \<Rightarrow> string + AnnounceResponse" where
  "no_response a = Inl ''connection refused''"

definition request_of :: "AnnounceEvent \<Rightarrow> AnnounceRequest" where
  "request_of e = \<lparr>Event = e\<rparr>"

definition world_mixed :: world where
  "world_mixed =
     \<lparr>LookupIP = (\<lambda>h. Inr [ip_blocked4, ip_allowed4, ip_allowed6]),
      ipIsBlocked = (\<lambda>ip. ip = ip_blocked4),
      announceRequest = request_of,
      Do = no_response,
      Entered = instant_of 900,
      Resolved = instant_of 1000,
      Answered = instant_of 1100\<rparr>"

definition world_blocked :: world where
  "world_blocked =
     \<lparr>LookupIP = (\<lambda>h. Inr [ip_blocked4]),
      ipIsBlocked = (\<lambda>ip. ip = ip_blocked4),
      announceRequest = request_of,
      Do = no_response,
      Entered = instant_of 900,
      Resolved = instant_of 1000,
      Answered = instant_of 1100\<rparr>"

definition no_result :: trackerAnnounceResult where
  \<comment> \<open>the zero value of the struct\<close>
  "no_result = \<lparr>Err = None, NumPeers = 0, Interval = 0, Completed = 0\<rparr>"

definition scraper_udp4 :: trackerScraper where
  "scraper_udp4 =
     \<lparr>u = \<lparr>Scheme = ''udp4'', Host = ''tracker.example.com:6969'', Path = ''/announce'',
            RawQuery = []\<rparr>,
      lastAnnounce = no_result\<rparr>"

text \<open>
  A tracker that answers with ten seconds and two peers, and one that answers with thirty
  minutes and seven peers.
\<close>

definition two_peers :: "Peer list" where
  "two_peers = [\<lparr>PeerIP = [198, 51, 100, 1], PeerPort = 6881\<rparr>,
                \<lparr>PeerIP = [198, 51, 100, 2], PeerPort = 6881\<rparr>]"

definition world_eager :: world where
  "world_eager =
     \<lparr>LookupIP = (\<lambda>h. Inr [ip_allowed4]),
      ipIsBlocked = (\<lambda>ip. False),
      announceRequest = request_of,
      Do = (\<lambda>a. Inr \<lparr>ResInterval = 10, Peers = two_peers\<rparr>),
      Entered = instant_of (4998 * Second),
      Resolved = instant_of (4999 * Second),
      Answered = instant_of (5000 * Second)\<rparr>"

text \<open>
  A result with an interval of ten seconds, and cycles in which the want-peers channel
  is ready at the check, becomes ready during the wait, or stays silent.
\<close>

definition short_result :: trackerAnnounceResult where
  "short_result = \<lparr>Err = None, NumPeers = 2, Interval = 10 * Second, Completed = 5000 * Second\<rparr>"

definition long_result :: trackerAnnounceResult where
  "long_result = \<lparr>Err = None, NumPeers = 7, Interval = 1800 * Second, Completed = 5000 * Second\<rparr>"

definition cycle_timer :: cycle where
  "cycle_timer = \<lparr>wantPeersReady = False, signals = [SigTimer]\<rparr>"

definition cycle_want_later :: cycle where
  "cycle_want_later = \<lparr>wantPeersReady = False, signals = [SigWantPeers, SigTimer]\<rparr>"

definition cycle_want_now :: cycle where
  "cycle_want_now = \<lparr>wantPeersReady = True, signals = [SigWantPeers, SigTimer]\<rparr>"

definition cycle_closed :: cycle where
  "cycle_closed = \<lparr>wantPeersReady = False, signals = [SigClosed]\<rparr>"

definition example_run :: run where
  "example_run =
     Run scraper_udp4 [world_mixed, world_eager, world_blocked]
       [cycle_want_later, cycle_want_now, cycle_closed]"

definition scraper_http :: trackerScraper where
  "scraper_http =
     \<lparr>u = \<lparr>Scheme = ''http'', Host = ''tracker.example.com'', Path = ''/announce'',
            RawQuery = []\<rparr>,
      lastAnnounce = no_result\<rparr>"

text \<open>
  A tracker whose answer is an error page of two lines, and the scraper as the loop leaves
  it after one attempt against that tracker.
\<close>

definition error_page :: string where
  "error_page = ''response from tracker: 404 Not Found: <html>'' @ [CHR 0x0A] @ ''</html>''"

definition world_error_page :: world where
  "world_error_page =
     \<lparr>LookupIP = (\<lambda>h. Inr [ip_allowed4]),
      ipIsBlocked = (\<lambda>ip. False),
      announceRequest = request_of,
      Do = (\<lambda>a. Inl error_page),
      Entered = instant_of (4998 * Second),
      Resolved = instant_of (4999 * Second),
      Answered = instant_of (5000 * Second)\<rparr>"



section \<open>Properties\<close>

lemma getIp_range_find:
  "getIp_range blocked scheme ip0 ips =
     (case find (acceptable blocked scheme) ips of
        Some ip \<Rightarrow> (ip, None)
      | None \<Rightarrow> (last (ip0 # ips), Some (errorString ''no acceptable ips'')))"
  by (induction ips arbitrary: ip0) (auto simp: acceptable_def split: option.splits)

lemma find_first_index:
  assumes "i < length xs" and "P (xs ! i)" and "\<forall>j<i. \<not> P (xs ! j)"
  shows "find P xs = Some (xs ! i)"
  using assms
proof (induction xs arbitrary: i)
  case Nil
  then show ?case by simp
next
  case (Cons x xs)
  show ?case
  proof (cases i)
    case 0
    with Cons.prems show ?thesis by simp
  next
    case (Suc k)
    with Cons.prems have "\<not> P x" by auto
    moreover have "find P xs = Some (xs ! k)"
    proof (rule Cons.IH)
      show "k < length xs" using Cons.prems(1) Suc by simp
      show "P (xs ! k)" using Cons.prems(2) Suc by simp
      show "\<forall>j<k. \<not> P (xs ! j)"
      proof (intro allI impI)
        fix j assume "j < k"
        then have "Suc j < i" using Suc by simp
        with Cons.prems(3) have "\<not> P ((x # xs) ! Suc j)" by blast
        then show "\<not> P (xs ! j)" by simp
      qed
    qed
    ultimately show ?thesis using Suc by simp
  qed
qed

text \<open>
  C6. When the lookup yields candidates and the candidate at position \<open>i\<close> is the first
  one that is neither blocked nor of the wrong family for the scheme (\<^verbatim>\<open>udp4\<close> drops
  what \<open>To4\<close> rejects, \<^verbatim>\<open>udp6\<close> drops what \<open>To4\<close> accepts), \<open>getIp\<close> returns that
  candidate and no error.
\<close>

theorem getIp_first_acceptable:
  assumes "LookupIP w (Hostname (u me)) = Inr ips"
    and "i < length ips"
    and "acceptable (ipIsBlocked w) (Scheme (u me)) (ips ! i)"
    and "\<forall>j<i. \<not> acceptable (ipIsBlocked w) (Scheme (u me)) (ips ! j)"
  shows "getIp w me = (ips ! i, None)"
proof -
  have "find (acceptable (ipIsBlocked w) (Scheme (u me))) ips = Some (ips ! i)"
    using assms(2-4) by (rule find_first_index)
  moreover have "ips \<noteq> []" using assms(2) by auto
  ultimately show ?thesis
    using assms(1) by (simp add: getIp_def getIp_range_find)
qed

theorem getIp_first_acceptable_witness:
  "getIp world_mixed scraper_udp4 = (ip_allowed4, None)"
proof -
  let ?ips = "[ip_blocked4, ip_allowed4, ip_allowed6]"
  have 1: "LookupIP world_mixed (Hostname (u scraper_udp4)) = Inr ?ips"
    by (simp add: world_mixed_def)
  have 2: "(1::nat) < length ?ips" by simp
  have 3: "acceptable (ipIsBlocked world_mixed) (Scheme (u scraper_udp4)) (?ips ! 1)"
    by (simp add: acceptable_def world_mixed_def scraper_udp4_def To4_def
        ip_allowed4_def ip_blocked4_def)
  have 4: "\<forall>j<1. \<not> acceptable (ipIsBlocked world_mixed) (Scheme (u scraper_udp4)) (?ips ! j)"
    by (simp add: acceptable_def world_mixed_def)
  show ?thesis using getIp_first_acceptable [OF 1 2 3 4] by simp
qed

lemma find_None_acceptable:
  "find P xs = None \<longleftrightarrow> (\<forall>x\<in>set xs. \<not> P x)"
  by (induction xs) auto

lemma find_Some_acceptable:
  "find P xs = Some x \<Longrightarrow> x \<in> set xs \<and> P x"
  by (induction xs) (auto split: if_splits)

text \<open>
  C7. \<open>getIp\<close> reports a resolution failure exactly when the lookup itself fails or
  answers with no candidate, and the no-acceptable-address error exactly when the lookup
  answers with candidates that are all blocked or of the wrong family. No error is of both
  kinds, and the texts of the two errors made here differ.
\<close>

theorem getIp_error_kinds:
  "((\<exists>e. snd (getIp w me) = Some e \<and> isResolutionFailure e) \<longleftrightarrow>
      (\<exists>t. LookupIP w (Hostname (u me)) = Inl t) \<or> LookupIP w (Hostname (u me)) = Inr [])
   \<and> ((\<exists>e. snd (getIp w me) = Some e \<and> isNoAcceptableAddress e) \<longleftrightarrow>
      (\<exists>ips. LookupIP w (Hostname (u me)) = Inr ips \<and> ips \<noteq> [] \<and>
         (\<forall>ip\<in>set ips. \<not> acceptable (ipIsBlocked w) (Scheme (u me)) ip)))
   \<and> (\<forall>e. \<not> (isResolutionFailure e \<and> isNoAcceptableAddress e))
   \<and> Error (errorString ''no ips'') \<noteq> Error (errorString ''no acceptable ips'')"
proof (intro conjI)
  show "(\<exists>e. snd (getIp w me) = Some e \<and> isResolutionFailure e) \<longleftrightarrow>
      (\<exists>t. LookupIP w (Hostname (u me)) = Inl t) \<or> LookupIP w (Hostname (u me)) = Inr []"
    by (cases "LookupIP w (Hostname (u me))")
      (auto simp: getIp_def getIp_range_find isResolutionFailure_def split: option.splits)
  show "(\<exists>e. snd (getIp w me) = Some e \<and> isNoAcceptableAddress e) \<longleftrightarrow>
      (\<exists>ips. LookupIP w (Hostname (u me)) = Inr ips \<and> ips \<noteq> [] \<and>
         (\<forall>ip\<in>set ips. \<not> acceptable (ipIsBlocked w) (Scheme (u me)) ip))"
    by (cases "LookupIP w (Hostname (u me))")
      (auto simp: getIp_def getIp_range_find isNoAcceptableAddress_def
        find_None_acceptable split: option.splits dest: find_Some_acceptable)
  show "\<forall>e. \<not> (isResolutionFailure e \<and> isNoAcceptableAddress e)"
    by (auto simp: isResolutionFailure_def isNoAcceptableAddress_def split: error.splits)
  show "Error (errorString ''no ips'') \<noteq> Error (errorString ''no acceptable ips'')"
    by simp
qed

theorem getIp_error_kinds_witness:
  "snd (getIp world_blocked scraper_udp4) = Some (errorString ''no acceptable ips'')
   \<and> \<not> isResolutionFailure (errorString ''no acceptable ips'')"
proof -
  have "\<exists>ips. LookupIP world_blocked (Hostname (u scraper_udp4)) = Inr ips \<and> ips \<noteq> [] \<and>
         (\<forall>ip\<in>set ips. \<not> acceptable (ipIsBlocked world_blocked) (Scheme (u scraper_udp4)) ip)"
    by (simp add: world_blocked_def acceptable_def)
  with getIp_error_kinds [of world_blocked scraper_udp4]
  show ?thesis by (auto simp: isNoAcceptableAddress_def)
qed

subsection \<open>One announce attempt\<close>

lemma reading_positive: "0 < reading i"
  by transfer simp

lemma reading_instant_of: "0 < t \<Longrightarrow> reading (instant_of t) = t"
  by transfer simp

lemma announce_body_resolve_failed:
  assumes "getIp w me = (ip, Some err)"
  shows "announce_body w me e =
     (\<lparr>Err = Some (Errorf ''error getting ip: '' err), NumPeers = 0, Interval = Minute,
       Completed = 0\<rparr>, [], Resolved w)"
  using assms by (simp add: announce_body_def)

lemma announce_body_exchange_failed:
  assumes "getIp w me = (ip, None)"
    and "Do w \<lparr>TrackerUrl = trackerUrl me ip, Request = announceRequest w e,
                HostHeader = Host (u me), ServerName = Hostname (u me),
                UdpNetwork = Scheme (u me)\<rparr> = Inl err"
  shows "announce_body w me e =
     (\<lparr>Err = Some (Errorf ''error announcing: '' (LibError err)), NumPeers = 0,
       Interval = Minute, Completed = 0\<rparr>, [], Answered w)"
  using assms by (simp add: announce_body_def)

lemma announce_body_succeeded:
  assumes "getIp w me = (ip, None)"
    and "Do w \<lparr>TrackerUrl = trackerUrl me ip, Request = announceRequest w e,
                HostHeader = Host (u me), ServerName = Hostname (u me),
                UdpNetwork = Scheme (u me)\<rparr> = Inr res"
  shows "announce_body w me e =
     (\<lparr>Err = None, NumPeers = int (length (Peers res)),
       Interval = sint (ResInterval res) * Second, Completed = 0\<rparr>, Peers res, Answered w)"
  using assms by (simp add: announce_body_def)

lemma announce_body_cases:
  "(\<exists>ip err. getIp w me = (ip, Some err) \<and>
      announce_body w me e =
        (\<lparr>Err = Some (Errorf ''error getting ip: '' err), NumPeers = 0, Interval = Minute,
          Completed = 0\<rparr>, [], Resolved w))
   \<or> (\<exists>ip a err. getIp w me = (ip, None) \<and> Do w a = Inl err \<and>
      announce_body w me e =
        (\<lparr>Err = Some (Errorf ''error announcing: '' (LibError err)), NumPeers = 0,
          Interval = Minute, Completed = 0\<rparr>, [], Answered w))
   \<or> (\<exists>ip a res. getIp w me = (ip, None) \<and> Do w a = Inr res \<and>
      TrackerUrl a = trackerUrl me ip \<and> Event (Request a) = Event (announceRequest w e) \<and>
      announce_body w me e =
        (\<lparr>Err = None, NumPeers = int (length (Peers res)),
          Interval = sint (ResInterval res) * Second, Completed = 0\<rparr>, Peers res, Answered w))"
proof (cases "getIp w me")
  case (Pair ip r)
  show ?thesis
  proof (cases r)
    case (Some err)
    with Pair have "getIp w me = (ip, Some err)" by simp
    from announce_body_resolve_failed [OF this] this show ?thesis by blast
  next
    case None
    with Pair have ok: "getIp w me = (ip, None)" by simp
    let ?a = "\<lparr>TrackerUrl = trackerUrl me ip, Request = announceRequest w e,
               HostHeader = Host (u me), ServerName = Hostname (u me),
               UdpNetwork = Scheme (u me)\<rparr>"
    show ?thesis
    proof (cases "Do w ?a")
      case (Inl err)
      from announce_body_exchange_failed [OF ok Inl] ok Inl show ?thesis by blast
    next
      case (Inr res)
      have "TrackerUrl ?a = trackerUrl me ip"
        and "Event (Request ?a) = Event (announceRequest w e)" by simp_all
      with announce_body_succeeded [OF ok Inr] ok Inr show ?thesis by blast
    qed
  qed
qed

lemma announce_fields:
  "Err (fst (announce w me e)) = Err (fst (announce_body w me e))"
  "NumPeers (fst (announce w me e)) = NumPeers (fst (announce_body w me e))"
  "Interval (fst (announce w me e)) = Interval (fst (announce_body w me e))"
  "Completed (fst (announce w me e)) = reading (snd (snd (announce_body w me e)))"
  by (simp_all add: announce_def split: prod.splits)

lemma announce_failed:
  assumes "Err (fst (announce w me e)) \<noteq> None"
  shows "Interval (fst (announce w me e)) = Minute \<and> NumPeers (fst (announce w me e)) = 0"
  using assms announce_body_cases [of w me e]
  by (auto simp: announce_fields)

lemma announce_succeeded:
  assumes "Err (fst (announce w me e)) = None"
  shows "\<exists>ip a res. getIp w me = (ip, None) \<and> Do w a = Inr res \<and>
           TrackerUrl a = trackerUrl me ip \<and>
           Interval (fst (announce w me e)) = sint (ResInterval res) * Second \<and>
           NumPeers (fst (announce w me e)) = int (length (Peers res))"
  using assms announce_body_cases [of w me e]
  by (fastforce simp: announce_fields)

text \<open>
  C2. On each of the three paths through \<open>announce\<close> the result carries as \<open>Completed\<close>
  the reading of the clock at the end of the last thing the attempt did: the reading after
  the resolver's answer when the attempt returns early on a failed resolution, and the
  reading after the tracker client's answer when the exchange fails and when it succeeds.
  The field is written after the body has returned, and it is never the zero instant.
\<close>

theorem announce_completed_stamped:
  "(\<forall>ip err. getIp w me = (ip, Some err) \<longrightarrow>
      Err (fst (announce w me e)) = Some (Errorf ''error getting ip: '' err) \<and>
      Completed (fst (announce w me e)) = reading (Resolved w))
   \<and> (\<forall>ip err. getIp w me = (ip, None) \<and>
        Do w \<lparr>TrackerUrl = trackerUrl me ip, Request = announceRequest w e,
               HostHeader = Host (u me), ServerName = Hostname (u me),
               UdpNetwork = Scheme (u me)\<rparr> = Inl err \<longrightarrow>
      Err (fst (announce w me e)) = Some (Errorf ''error announcing: '' (LibError err)) \<and>
      Completed (fst (announce w me e)) = reading (Answered w))
   \<and> (\<forall>ip res. getIp w me = (ip, None) \<and>
        Do w \<lparr>TrackerUrl = trackerUrl me ip, Request = announceRequest w e,
               HostHeader = Host (u me), ServerName = Hostname (u me),
               UdpNetwork = Scheme (u me)\<rparr> = Inr res \<longrightarrow>
      Err (fst (announce w me e)) = None \<and>
      Completed (fst (announce w me e)) = reading (Answered w))
   \<and> fst (announce w me e) =
       (fst (announce_body w me e))\<lparr>Completed := reading (snd (snd (announce_body w me e)))\<rparr>
   \<and> \<not> IsZero (Completed (fst (announce w me e)))"
proof -
  have early: "\<forall>ip err. getIp w me = (ip, Some err) \<longrightarrow>
      Err (fst (announce w me e)) = Some (Errorf ''error getting ip: '' err) \<and>
      Completed (fst (announce w me e)) = reading (Resolved w)"
  proof (intro allI impI)
    fix ip err
    assume "getIp w me = (ip, Some err)"
    from announce_body_resolve_failed [OF this, of e]
    show "Err (fst (announce w me e)) = Some (Errorf ''error getting ip: '' err) \<and>
        Completed (fst (announce w me e)) = reading (Resolved w)"
      by (simp add: announce_fields)
  qed
  have failed: "\<forall>ip err. getIp w me = (ip, None) \<and>
        Do w \<lparr>TrackerUrl = trackerUrl me ip, Request = announceRequest w e,
               HostHeader = Host (u me), ServerName = Hostname (u me),
               UdpNetwork = Scheme (u me)\<rparr> = Inl err \<longrightarrow>
      Err (fst (announce w me e)) = Some (Errorf ''error announcing: '' (LibError err)) \<and>
      Completed (fst (announce w me e)) = reading (Answered w)"
  proof (intro allI impI)
    fix ip err
    assume "getIp w me = (ip, None) \<and>
        Do w \<lparr>TrackerUrl = trackerUrl me ip, Request = announceRequest w e,
               HostHeader = Host (u me), ServerName = Hostname (u me),
               UdpNetwork = Scheme (u me)\<rparr> = Inl err"
    then have "announce_body w me e =
       (\<lparr>Err = Some (Errorf ''error announcing: '' (LibError err)), NumPeers = 0,
         Interval = Minute, Completed = 0\<rparr>, [], Answered w)"
      by (simp add: announce_body_exchange_failed)
    then show "Err (fst (announce w me e)) =
          Some (Errorf ''error announcing: '' (LibError err)) \<and>
        Completed (fst (announce w me e)) = reading (Answered w)"
      by (simp add: announce_fields)
  qed
  have succeeded: "\<forall>ip res. getIp w me = (ip, None) \<and>
        Do w \<lparr>TrackerUrl = trackerUrl me ip, Request = announceRequest w e,
               HostHeader = Host (u me), ServerName = Hostname (u me),
               UdpNetwork = Scheme (u me)\<rparr> = Inr res \<longrightarrow>
      Err (fst (announce w me e)) = None \<and>
      Completed (fst (announce w me e)) = reading (Answered w)"
  proof (intro allI impI)
    fix ip res
    assume "getIp w me = (ip, None) \<and>
        Do w \<lparr>TrackerUrl = trackerUrl me ip, Request = announceRequest w e,
               HostHeader = Host (u me), ServerName = Hostname (u me),
               UdpNetwork = Scheme (u me)\<rparr> = Inr res"
    then have "announce_body w me e =
       (\<lparr>Err = None, NumPeers = int (length (Peers res)),
         Interval = sint (ResInterval res) * Second, Completed = 0\<rparr>, Peers res, Answered w)"
      by (simp add: announce_body_succeeded)
    then show "Err (fst (announce w me e)) = None \<and>
        Completed (fst (announce w me e)) = reading (Answered w)"
      by (simp add: announce_fields)
  qed
  have last: "fst (announce w me e) =
       (fst (announce_body w me e))\<lparr>Completed := reading (snd (snd (announce_body w me e)))\<rparr>"
    by (simp add: announce_def split: prod.splits)
  have "0 < Completed (fst (announce w me e))"
    by (simp add: announce_fields reading_positive)
  then have nonzero: "\<not> IsZero (Completed (fst (announce w me e)))"
    by (simp add: IsZero_def)
  show ?thesis
    by (rule conjI [OF early conjI [OF failed conjI [OF succeeded conjI [OF last nonzero]]]])
qed

theorem announce_completed_stamped_witness:
  "Completed (fst (announce world_blocked scraper_udp4 Started)) = 1000
   \<and> reading (Entered world_blocked) = 900
   \<and> Completed (fst (announce world_error_page scraper_http Started)) = 5000 * Second
   \<and> Completed (fst (announce world_eager scraper_udp4 Started)) = 5000 * Second
   \<and> reading (Resolved world_eager) = 4999 * Second
   \<and> \<not> IsZero (Completed (fst (announce world_blocked scraper_udp4 Started)))"
proof -
  have blocked: "getIp world_blocked scraper_udp4 =
      (ip_blocked4, Some (errorString ''no acceptable ips''))"
    by (simp add: getIp_def world_blocked_def)
  have page_ip: "getIp world_error_page scraper_http = (ip_allowed4, None)"
    by (simp add: getIp_def world_error_page_def scraper_http_def)
  have page: "getIp world_error_page scraper_http = (ip_allowed4, None) \<and>
      Do world_error_page
        \<lparr>TrackerUrl = trackerUrl scraper_http ip_allowed4,
         Request = announceRequest world_error_page Started,
         HostHeader = Host (u scraper_http), ServerName = Hostname (u scraper_http),
         UdpNetwork = Scheme (u scraper_http)\<rparr> = Inl error_page"
    using page_ip by (simp add: world_error_page_def)
  have eager_ip: "getIp world_eager scraper_udp4 = (ip_allowed4, None)"
    by (simp add: getIp_def world_eager_def scraper_udp4_def To4_def ip_allowed4_def)
  have eager: "getIp world_eager scraper_udp4 = (ip_allowed4, None) \<and>
      Do world_eager
        \<lparr>TrackerUrl = trackerUrl scraper_udp4 ip_allowed4,
         Request = announceRequest world_eager Started,
         HostHeader = Host (u scraper_udp4), ServerName = Hostname (u scraper_udp4),
         UdpNetwork = Scheme (u scraper_udp4)\<rparr> = Inr \<lparr>ResInterval = 10, Peers = two_peers\<rparr>"
    using eager_ip by (simp add: world_eager_def)
  have r1: "reading (Resolved world_blocked) = 1000"
    and r0: "reading (Entered world_blocked) = 900"
    by (simp_all add: world_blocked_def reading_instant_of)
  have r2: "reading (Answered world_error_page) = 5000 * Second"
    by (simp add: world_error_page_def reading_instant_of Second_def)
  have r3: "reading (Answered world_eager) = 5000 * Second"
    and r4: "reading (Resolved world_eager) = 4999 * Second"
    by (simp_all add: world_eager_def reading_instant_of Second_def)
  from announce_completed_stamped [of world_blocked scraper_udp4 Started] blocked
  have "Completed (fst (announce world_blocked scraper_udp4 Started)) =
      reading (Resolved world_blocked)"
    and z: "\<not> IsZero (Completed (fst (announce world_blocked scraper_udp4 Started)))"
    by blast+
  with r1 have a: "Completed (fst (announce world_blocked scraper_udp4 Started)) = 1000"
    by simp
  from announce_completed_stamped [of world_error_page scraper_http Started] page
  have "Completed (fst (announce world_error_page scraper_http Started)) =
      reading (Answered world_error_page)"
    by blast
  with r2
  have b: "Completed (fst (announce world_error_page scraper_http Started)) = 5000 * Second"
    by simp
  from announce_completed_stamped [of world_eager scraper_udp4 Started] eager
  have "Completed (fst (announce world_eager scraper_udp4 Started)) =
      reading (Answered world_eager)"
    by blast
  with r3
  have c: "Completed (fst (announce world_eager scraper_udp4 Started)) = 5000 * Second"
    by simp
  from a r0 b c r4 z show ?thesis by blast
qed

subsection \<open>The wait of the loop\<close>

lemma Run_interval_max:
  "Run_interval ar = max (Interval ar) Minute"
  by (simp add: Run_interval_def Let_def max_def)

lemma Run_poll_interval:
  "fst (Run_poll ready (Run_interval ar)) = (if ready then Minute else Run_interval ar)"
  by (simp add: Run_poll_def Run_interval_def Let_def)

lemma Run_poll_channel:
  "snd (Run_poll ready interval) = (\<not> ready)"
  by (simp add: Run_poll_def)

lemma Run_wait_step:
  "Run_wait me ar ws (c # cs) =
     emit (Wait (if wantPeersReady c then Minute else Run_interval ar)
                (Time_Add (Completed ar) (if wantPeersReady c then Minute else Run_interval ar)))
       (case Run_select (\<not> wantPeersReady c) (signals c) of
          None \<Rightarrow> ([], me, Pending)
        | Some SigClosed \<Rightarrow> announceStopped me ws
        | Some SigWantPeers \<Rightarrow> Run_wait me ar ws cs
        | Some SigTimer \<Rightarrow> Run_from me NoneEvent ws cs)"
proof -
  obtain i p where poll: "Run_poll (wantPeersReady c) (Run_interval ar) = (i, p)"
    by (cases "Run_poll (wantPeersReady c) (Run_interval ar)")
  have "i = (if wantPeersReady c then Minute else Run_interval ar)"
    using Run_poll_interval [of "wantPeersReady c" ar] poll by simp
  moreover have "p = (\<not> wantPeersReady c)"
    using Run_poll_channel [of "wantPeersReady c" "Run_interval ar"] poll by simp
  ultimately show ?thesis
    using poll by (simp add: Let_def)
qed

lemma fst_emit: "fst (emit a r) = a # fst r"
  by (simp add: emit_def)

lemma snd_emit: "snd (emit a r) = snd r"
  by (simp add: emit_def)

declare Run_from.simps(2) [simp del]
declare Run_wait.simps(2) [simp del]

lemma Run_from_step:
  "Run_from me e (w # ws) cs =
     emit (Announced e (fst (announce w me e)))
       (Run_wait (me\<lparr>lastAnnounce := fst (announce w me e)\<rparr>) (fst (announce w me e)) ws cs)"
  by (simp add: Run_from.simps(2) Let_def)

lemma Run_wait_no_world:
  "snd (Run_wait me ar [] cs) = (me, Pending)"
proof (induction cs)
  case Nil
  then show ?case by simp
next
  case (Cons c cs)
  show ?case
  proof (cases "Run_select (\<not> wantPeersReady c) (signals c)")
    case None
    then show ?thesis by (simp add: Run_wait_step snd_emit)
  next
    case (Some s)
    with Cons show ?thesis
      by (cases s) (simp_all add: Run_wait_step snd_emit announceStopped_def)
  qed
qed

lemma Run_from_stores:
  "fst (snd (Run_from me e [w] cs)) = me\<lparr>lastAnnounce := fst (announce w me e)\<rparr>"
  by (simp add: Run_from_step snd_emit Run_wait_no_world)

lemma Run_wait_first:
  "take 1 (fst (Run_wait me ar ws (c # cs))) =
     [Wait (if wantPeersReady c then Minute else Run_interval ar)
           (Time_Add (Completed ar) (if wantPeersReady c then Minute else Run_interval ar))]"
  by (simp add: Run_wait_step fst_emit)

lemma Run_from_first_wait:
  "take 2 (fst (Run_from me e (w # ws) (c # cs))) =
     [Announced e (fst (announce w me e)),
      Wait (if wantPeersReady c then Minute else Run_interval (fst (announce w me e)))
           (Time_Add (Completed (fst (announce w me e)))
              (if wantPeersReady c then Minute else Run_interval (fst (announce w me e))))]"
  by (simp add: Run_from_step Run_wait_step fst_emit)

text \<open>
  C3. An attempt that ends with an error, whether from the resolver step or from the
  tracker exchange, yields a result with an interval of one minute and no peers. The loop
  stores this result as the last result, and the wait it enters next has an interval of
  exactly one minute, ending one minute after the attempt completed.
\<close>

theorem failed_announce_retries_after_minute:
  assumes "Err (fst (announce w me e)) \<noteq> None"
  shows "Interval (fst (announce w me e)) = Minute
    \<and> NumPeers (fst (announce w me e)) = 0
    \<and> lastAnnounce (fst (snd (Run_from me e [w] cs))) = fst (announce w me e)
    \<and> take 2 (fst (Run_from me e (w # ws) (c # cs'))) =
          [Announced e (fst (announce w me e)), Wait Minute (Time_Add (Completed (fst (announce w me e))) Minute)]"
proof -
  have failed: "Interval (fst (announce w me e)) = Minute \<and> NumPeers (fst (announce w me e)) = 0"
    using assms by (rule announce_failed)
  then have "Run_interval (fst (announce w me e)) = Minute"
    by (simp add: Run_interval_def)
  then have "take 2 (fst (Run_from me e (w # ws) (c # cs'))) =
          [Announced e (fst (announce w me e)), Wait Minute (Time_Add (Completed (fst (announce w me e))) Minute)]"
    by (simp add: Run_from_first_wait)
  moreover have "lastAnnounce (fst (snd (Run_from me e [w] cs))) = fst (announce w me e)"
    by (simp add: Run_from_stores)
  ultimately show ?thesis using failed by blast
qed

theorem failed_announce_retries_after_minute_witness:
  "Err (fst (announce world_blocked scraper_udp4 Started)) =
     Some (errorString ''error getting ip: no acceptable ips'')
   \<and> Interval (fst (announce world_blocked scraper_udp4 Started)) = 60000000000
   \<and> NumPeers (fst (announce world_blocked scraper_udp4 Started)) = 0"
proof -
  have err: "Err (fst (announce world_blocked scraper_udp4 Started)) =
     Some (errorString ''error getting ip: no acceptable ips'')"
    by (simp add: announce_def announce_body_def getIp_def world_blocked_def Errorf_def)
  then have "Err (fst (announce world_blocked scraper_udp4 Started)) \<noteq> None" by simp
  from failed_announce_retries_after_minute [OF this] err
  show ?thesis by (simp add: Minute_def Second_def)
qed

text \<open>
  C4, as the claim states it, fails when the want-peers channel is ready at the
  non-blocking check: after a result with an interval of thirty minutes the loop waits
  one minute, not the larger of thirty minutes and one minute.
\<close>

theorem wait_interval_capped_counterexample:
  "take 1 (fst (Run_wait scraper_udp4 long_result [] [cycle_want_now])) =
     [Wait (60 * Second) (5060 * Second)]
   \<and> max (Interval long_result) Minute = 1800 * Second
   \<and> 60 * Second \<noteq> max (Interval long_result) Minute"
proof -
  have ready: "wantPeersReady cycle_want_now" by (simp add: cycle_want_now_def)
  have "take 1 (fst (Run_wait scraper_udp4 long_result [] [cycle_want_now])) =
     [Wait Minute (Time_Add (Completed long_result) Minute)]"
    using Run_wait_first [of scraper_udp4 long_result "[]" cycle_want_now "[]"] ready by simp
  moreover have "Time_Add (Completed long_result) Minute = 5060 * Second"
    and "Minute = 60 * Second"
    by (simp_all add: long_result_def Time_Add_def Minute_def)
  moreover have "max (Interval long_result) Minute = 1800 * Second"
    by (simp add: long_result_def Minute_def Second_def)
  ultimately show ?thesis by (simp add: Second_def)
qed

text \<open>
  C4, amended. The interval the loop computes at the label \<^verbatim>\<open>wait:\<close> is the larger of
  the result's interval and one minute. The wait that follows has this interval, counted
  from the completion time, unless the want-peers channel is ready at the non-blocking
  check, in which case it has an interval of one minute. Whenever the result's interval
  is below one minute the wait has an interval of exactly one minute.
\<close>

theorem wait_interval_floor:
  "Run_interval ar = max (Interval ar) Minute
   \<and> take 1 (fst (Run_wait me ar ws (c # cs))) =
       [Wait (if wantPeersReady c then Minute else max (Interval ar) Minute)
             (Time_Add (Completed ar)
                (if wantPeersReady c then Minute else max (Interval ar) Minute))]
   \<and> (Interval ar < Minute \<longrightarrow>
        take 1 (fst (Run_wait me ar ws (c # cs))) =
          [Wait Minute (Time_Add (Completed ar) Minute)])"
proof (intro conjI impI)
  show "Run_interval ar = max (Interval ar) Minute" by (rule Run_interval_max)
next
  show "take 1 (fst (Run_wait me ar ws (c # cs))) =
       [Wait (if wantPeersReady c then Minute else max (Interval ar) Minute)
             (Time_Add (Completed ar)
                (if wantPeersReady c then Minute else max (Interval ar) Minute))]"
    using Run_wait_first [of me ar ws c cs] by (simp add: Run_interval_max)
next
  assume "Interval ar < Minute"
  then have "Run_interval ar = Minute" by (simp add: Run_interval_def)
  then show "take 1 (fst (Run_wait me ar ws (c # cs))) =
          [Wait Minute (Time_Add (Completed ar) Minute)]"
    using Run_wait_first [of me ar ws c cs] by simp
qed

theorem wait_interval_floor_witness:
  "take 1 (fst (Run_wait scraper_udp4 short_result [] [cycle_timer])) =
     [Wait 60000000000 5060000000000]
   \<and> take 1 (fst (Run_wait scraper_udp4 long_result [] [cycle_timer])) =
     [Wait 1800000000000 6800000000000]"
proof -
  have idle: "\<not> wantPeersReady cycle_timer" by (simp add: cycle_timer_def)
  have below: "Interval short_result < Minute"
    by (simp add: short_result_def Minute_def Second_def)
  from wait_interval_floor [of short_result scraper_udp4 "[]" cycle_timer "[]"] below
  have a: "take 1 (fst (Run_wait scraper_udp4 short_result [] [cycle_timer])) =
     [Wait 60000000000 5060000000000]"
    by (simp add: short_result_def Minute_def Second_def Time_Add_def)
  from wait_interval_floor [of long_result scraper_udp4 "[]" cycle_timer "[]"] idle
  have b: "take 1 (fst (Run_wait scraper_udp4 long_result [] [cycle_timer])) =
     [Wait 1800000000000 6800000000000]"
    by (simp add: long_result_def Minute_def Second_def Time_Add_def)
  from a b show ?thesis by blast
qed

subsection \<open>The order of the events\<close>

lemma events_emit_Announced: "events (fst (emit (Announced e ar) r)) = e # events (fst r)"
  by (simp add: emit_def)

lemma events_emit_Wait: "events (fst (emit (Wait i d) r)) = events (fst r)"
  by (simp add: emit_def)

lemma closing_emit: "closing (emit a r) = closing r"
  by (simp add: closing_def emit_def)

lemma events_announceStopped:
  "events (fst (announceStopped me ws)) = closing (announceStopped me ws)"
  by (cases ws) (simp_all add: announceStopped_def closing_def)

lemma Run_events_shape:
  "length ws + length cs \<le> k \<Longrightarrow>
     (\<exists>n. events (fst (Run_from me e ws cs)) =
            (if ws = [] then [] else [e]) @ replicate n NoneEvent @ closing (Run_from me e ws cs))
     \<and> (\<exists>n. events (fst (Run_wait me ar ws cs)) =
            replicate n NoneEvent @ closing (Run_wait me ar ws cs))"
proof (induction k arbitrary: me e ar ws cs)
  case 0
  then show ?case by (simp add: closing_def)
next
  case (Suc k)
  have wait: "\<exists>n. events (fst (Run_wait me ar ws cs)) =
            replicate n NoneEvent @ closing (Run_wait me ar ws cs)" for me ar
  proof (cases cs)
    case Nil
    then show ?thesis by (simp add: closing_def)
  next
    case (Cons c cs')
    then have smaller: "length ws + length cs' \<le> k" using Suc.prems by simp
    show ?thesis
    proof (cases "Run_select (\<not> wantPeersReady c) (signals c)")
      case None
      then show ?thesis
        by (simp add: Cons Run_wait_step events_emit_Wait closing_def snd_emit)
    next
      case (Some s)
      show ?thesis
      proof (cases s)
        case SigClosed
        with Some have "Run_wait me ar ws cs =
            emit (Wait (if wantPeersReady c then Minute else Run_interval ar)
                (Time_Add (Completed ar) (if wantPeersReady c then Minute else Run_interval ar)))
              (announceStopped me ws)"
          by (simp add: Cons Run_wait_step)
        then have "events (fst (Run_wait me ar ws cs)) =
            replicate 0 NoneEvent @ closing (Run_wait me ar ws cs)"
          by (simp add: events_emit_Wait closing_emit events_announceStopped)
        then show ?thesis by blast
      next
        case SigWantPeers
        with Some have step: "Run_wait me ar ws cs =
            emit (Wait (if wantPeersReady c then Minute else Run_interval ar)
                (Time_Add (Completed ar) (if wantPeersReady c then Minute else Run_interval ar)))
              (Run_wait me ar ws cs')"
          by (simp add: Cons Run_wait_step)
        from Suc.IH [OF smaller, of me e ar]
        obtain n where "events (fst (Run_wait me ar ws cs')) =
            replicate n NoneEvent @ closing (Run_wait me ar ws cs')" by blast
        with step have "events (fst (Run_wait me ar ws cs)) =
            replicate n NoneEvent @ closing (Run_wait me ar ws cs)"
          by (simp add: events_emit_Wait closing_emit)
        then show ?thesis by blast
      next
        case SigTimer
        with Some have step: "Run_wait me ar ws cs =
            emit (Wait (if wantPeersReady c then Minute else Run_interval ar)
                (Time_Add (Completed ar) (if wantPeersReady c then Minute else Run_interval ar)))
              (Run_from me NoneEvent ws cs')"
          by (simp add: Cons Run_wait_step)
        from Suc.IH [OF smaller, of me NoneEvent ar]
        obtain n where "events (fst (Run_from me NoneEvent ws cs')) =
            (if ws = [] then [] else [NoneEvent]) @ replicate n NoneEvent @
            closing (Run_from me NoneEvent ws cs')" by blast
        with step have "events (fst (Run_wait me ar ws cs)) =
            replicate (if ws = [] then n else Suc n) NoneEvent @ closing (Run_wait me ar ws cs)"
          by (simp add: events_emit_Wait closing_emit)
        then show ?thesis by blast
      qed
    qed
  qed
  have "from": "\<exists>n. events (fst (Run_from me e ws cs)) =
            (if ws = [] then [] else [e]) @ replicate n NoneEvent @ closing (Run_from me e ws cs)"
  proof (cases ws)
    case Nil
    then show ?thesis by (simp add: closing_def)
  next
    case (Cons w ws')
    then have smaller: "length ws' + length cs \<le> k" using Suc.prems by simp
    let ?ar = "fst (announce w me e)"
    let ?me = "me\<lparr>lastAnnounce := ?ar\<rparr>"
    from Suc.IH [OF smaller, of ?me e ?ar]
    obtain n where "events (fst (Run_wait ?me ?ar ws' cs)) =
            replicate n NoneEvent @ closing (Run_wait ?me ?ar ws' cs)" by blast
    then have "events (fst (Run_from me e ws cs)) =
            (if ws = [] then [] else [e]) @ replicate n NoneEvent @ closing (Run_from me e ws cs)"
      by (simp add: Cons Run_from_step events_emit_Announced closing_emit)
    then show ?thesis by blast
  qed
  from wait "from" show ?case by blast
qed

lemma ends_with_Stopped_emit:
  "ends_with_Stopped r \<Longrightarrow> ends_with_Stopped (emit a r)"
proof -
  assume "ends_with_Stopped r"
  then obtain pre ar where "fst r = pre @ [Announced Stopped ar]"
    by (auto simp: ends_with_Stopped_def)
  then have "fst (emit a r) = (a # pre) @ [Announced Stopped ar]"
    by (simp add: emit_def)
  then show ?thesis unfolding ends_with_Stopped_def by blast
qed

lemma ends_with_Stopped_announceStopped:
  "snd (snd (announceStopped me ws)) = Returned \<Longrightarrow> ends_with_Stopped (announceStopped me ws)"
proof (cases ws)
  case Nil
  assume "snd (snd (announceStopped me ws)) = Returned"
  with Nil show ?thesis by (simp add: announceStopped_def)
next
  case (Cons w ws')
  then have "fst (announceStopped me ws) = [] @ [Announced Stopped (fst (announce w me Stopped))]"
    by (simp add: announceStopped_def)
  then show ?thesis unfolding ends_with_Stopped_def by blast
qed

lemma Run_returned_last:
  "length ws + length cs \<le> k \<Longrightarrow>
     (snd (snd (Run_from me e ws cs)) = Returned \<longrightarrow> ends_with_Stopped (Run_from me e ws cs))
     \<and> (snd (snd (Run_wait me ar ws cs)) = Returned \<longrightarrow> ends_with_Stopped (Run_wait me ar ws cs))"
proof (induction k arbitrary: me e ar ws cs)
  case 0
  then show ?case by simp
next
  case (Suc k)
  have wait: "snd (snd (Run_wait me ar ws cs)) = Returned \<longrightarrow>
      ends_with_Stopped (Run_wait me ar ws cs)" for me ar
  proof (cases cs)
    case Nil
    then show ?thesis by simp
  next
    case (Cons c cs')
    then have smaller: "length ws + length cs' \<le> k" using Suc.prems by simp
    show ?thesis
    proof (cases "Run_select (\<not> wantPeersReady c) (signals c)")
      case None
      then show ?thesis by (simp add: Cons Run_wait_step snd_emit)
    next
      case (Some s)
      show ?thesis
      proof (cases s)
        case SigClosed
        with Some show ?thesis
          by (simp add: Cons Run_wait_step snd_emit ends_with_Stopped_emit
              ends_with_Stopped_announceStopped)
      next
        case SigWantPeers
        with Some Suc.IH [OF smaller, of me e ar] show ?thesis
          by (simp add: Cons Run_wait_step snd_emit ends_with_Stopped_emit)
      next
        case SigTimer
        with Some Suc.IH [OF smaller, of me NoneEvent ar] show ?thesis
          by (simp add: Cons Run_wait_step snd_emit ends_with_Stopped_emit)
      qed
    qed
  qed
  have "from": "snd (snd (Run_from me e ws cs)) = Returned \<longrightarrow>
      ends_with_Stopped (Run_from me e ws cs)"
  proof (cases ws)
    case Nil
    then show ?thesis by simp
  next
    case (Cons w ws')
    then have smaller: "length ws' + length cs \<le> k" using Suc.prems by simp
    from Suc.IH [OF smaller, of "me\<lparr>lastAnnounce := fst (announce w me e)\<rparr>" e
        "fst (announce w me e)"]
    show ?thesis
      by (simp add: Cons Run_from_step snd_emit ends_with_Stopped_emit)
  qed
  from wait "from" show ?case by blast
qed

lemma Run_wait_closed:
  assumes "Run_select (\<not> wantPeersReady c) (signals c) = Some SigClosed"
  shows "Run_wait me ar (w # ws) (c # cs) =
     emit (Wait (if wantPeersReady c then Minute else Run_interval ar)
                (Time_Add (Completed ar) (if wantPeersReady c then Minute else Run_interval ar)))
       ([Announced Stopped (fst (announce w me Stopped))], me, Returned)"
  using assms by (simp add: Run_wait_step announceStopped_def)

text \<open>
  C1. In every run the events of the announce attempts are, in order: \<open>Started\<close> for the
  first attempt, \<open>NoneEvent\<close> for every later attempt of the loop, and \<open>Stopped\<close> for the
  attempt made when the run returns. \<open>Stopped\<close> occurs at most once; when the run has
  returned, the attempt with \<open>Stopped\<close> is the last thing it did; and whenever the blocking
  \<^verbatim>\<open>select\<close> takes the closed case, the run makes that one attempt and returns.
\<close>

theorem Run_event_order:
  "(\<exists>n. events (fst (Run me ws cs)) =
          (if ws = [] then [] else [Started]) @ replicate n NoneEvent @ closing (Run me ws cs))
   \<and> length (filter (\<lambda>e. e = Stopped) (events (fst (Run me ws cs)))) \<le> 1
   \<and> (snd (snd (Run me ws cs)) = Returned \<longrightarrow> ends_with_Stopped (Run me ws cs))
   \<and> (Run_select (\<not> wantPeersReady c) (signals c) = Some SigClosed \<longrightarrow>
        fst (Run_wait me ar (w # ws') (c # cs')) =
          [Wait (if wantPeersReady c then Minute else Run_interval ar)
                (Time_Add (Completed ar) (if wantPeersReady c then Minute else Run_interval ar)),
           Announced Stopped (fst (announce w me Stopped))]
        \<and> snd (snd (Run_wait me ar (w # ws') (c # cs'))) = Returned)"
proof -
  obtain n where shape: "events (fst (Run me ws cs)) =
      (if ws = [] then [] else [Started]) @ replicate n NoneEvent @ closing (Run me ws cs)"
    using Run_events_shape [of ws cs "length ws + length cs" me Started]
    unfolding Run_def by blast
  have "filter (\<lambda>e. e = Stopped) (events (fst (Run me ws cs))) = closing (Run me ws cs)"
    unfolding shape by (simp add: closing_def)
  then have once: "length (filter (\<lambda>e. e = Stopped) (events (fst (Run me ws cs)))) \<le> 1"
    by (simp add: closing_def)
  have last: "snd (snd (Run me ws cs)) = Returned \<longrightarrow> ends_with_Stopped (Run me ws cs)"
    using Run_returned_last [of ws cs "length ws + length cs" me Started]
    unfolding Run_def by blast
  have closed: "Run_select (\<not> wantPeersReady c) (signals c) = Some SigClosed \<longrightarrow>
        fst (Run_wait me ar (w # ws') (c # cs')) =
          [Wait (if wantPeersReady c then Minute else Run_interval ar)
                (Time_Add (Completed ar) (if wantPeersReady c then Minute else Run_interval ar)),
           Announced Stopped (fst (announce w me Stopped))]
        \<and> snd (snd (Run_wait me ar (w # ws') (c # cs'))) = Returned"
    by (simp add: Run_wait_closed emit_def)
  from shape once last closed show ?thesis by blast
qed

theorem Run_event_order_witness:
  "snd (snd example_run) = Returned
   \<and> ends_with_Stopped example_run
   \<and> events (fst example_run) = [Started, NoneEvent, Stopped]"
proof -
  have status: "snd (snd example_run) = Returned"
    by (simp add: example_run_def Run_def Run_from_step Run_wait_step snd_emit
        cycle_want_later_def cycle_want_now_def cycle_closed_def announceStopped_def)
  have ev: "events (fst example_run) = [Started, NoneEvent, Stopped]"
    by (simp add: example_run_def Run_def Run_from_step Run_wait_step fst_emit
        cycle_want_later_def cycle_want_now_def cycle_closed_def announceStopped_def)
  from Run_event_order [of scraper_udp4 "[world_mixed, world_eager, world_blocked]"
      "[cycle_want_later, cycle_want_now, cycle_closed]"] status
  have "ends_with_Stopped example_run"
    unfolding example_run_def by blast
  with status ev show ?thesis by blast
qed

subsection \<open>The want-peers signal\<close>







subsection \<open>The endpoint string\<close>

lemma LastIndexByte_notin: "c \<notin> set xs \<Longrightarrow> LastIndexByte xs c = None"
  by (induction xs) auto

lemma LastIndexByte_append:
  "c \<notin> set p \<Longrightarrow> LastIndexByte (xs @ c # p) c = Some (length xs)"
  by (induction xs) (simp_all add: LastIndexByte_notin)

lemma isDigit_not_colon: "list_all isDigit p \<Longrightarrow> CHR '':'' \<notin> set p"
  by (auto simp: list_all_iff isDigit_def)

lemma snd_splitHostPort:
  "snd (splitHostPort hp) =
     (case LastIndexByte hp CHR '':'' of
        Some colon \<Rightarrow> if validOptionalPort (drop colon hp) then drop (Suc colon) hp else []
      | None \<Rightarrow> [])"
  by (simp add: splitHostPort_def split: option.splits)

lemma validOptionalPort_tail:
  "validOptionalPort xs \<Longrightarrow> list_all isDigit (tl xs)"
  by (cases xs) (simp_all add: validOptionalPort_def)

lemma splitHostPort_digits:
  "list_all isDigit (snd (splitHostPort hp))"
  by (auto simp: snd_splitHostPort drop_Suc tl_drop dest: validOptionalPort_tail
      split: option.splits)

lemma splitHostPort_joined:
  assumes "list_all isDigit p"
  shows "splitHostPort (h @ CHR '':'' # p) =
     (if h \<noteq> [] \<and> hd h = CHR ''['' \<and> last h = CHR '']'' then butlast (tl h) else h, p)"
proof -
  have "LastIndexByte (h @ CHR '':'' # p) CHR '':'' = Some (length h)"
    using assms by (simp add: LastIndexByte_append isDigit_not_colon)
  moreover have "validOptionalPort (drop (length h) (h @ CHR '':'' # p))"
    using assms by (simp add: validOptionalPort_def)
  ultimately show ?thesis
    by (simp add: splitHostPort_def)
qed

lemma splitHostPort_JoinHostPort:
  assumes "list_all isDigit p"
    and "CHR '':'' \<in> set h \<or> h = [] \<or> hd h \<noteq> CHR ''[''"
  shows "splitHostPort (JoinHostPort h p) = (h, p)"
proof (cases "CHR '':'' \<in> set h")
  case True
  have "JoinHostPort h p = (''['' @ h @ '']'') @ CHR '':'' # p"
    using True by (simp add: JoinHostPort_def)
  then have "splitHostPort (JoinHostPort h p) =
      (if (''['' @ h @ '']'') \<noteq> [] \<and> hd (''['' @ h @ '']'') = CHR ''['' \<and>
          last (''['' @ h @ '']'') = CHR '']'' then butlast (tl (''['' @ h @ '']''))
       else ''['' @ h @ '']'', p)"
    using splitHostPort_joined [OF assms(1), of "''['' @ h @ '']''"] by simp
  then show ?thesis by (simp add: butlast_append)
next
  case False
  then have "JoinHostPort h p = h @ CHR '':'' # p"
    by (simp add: JoinHostPort_def)
  then show ?thesis
    using splitHostPort_joined [OF assms(1), of h] assms(2) False by auto
qed

lemma decDigit_not_bracket: "decDigit n \<noteq> CHR ''[''"
proof -
  have "decDigit n \<in> set ''0123456789''"
    unfolding decDigit_def by (rule nth_mem) simp
  then show ?thesis by auto
qed

lemma formatUint_hd: "formatUint n \<noteq> [] \<and> hd (formatUint n) \<noteq> CHR ''[''"
proof (induction n rule: formatUint.induct)
  case (1 n)
  show ?case
  proof (cases "n < 10")
    case True
    then show ?thesis
      by (simp add: formatUint.simps [of n] decDigit_not_bracket)
  next
    case False
    with 1 show ?thesis
      by (simp add: formatUint.simps [of n])
  qed
qed

lemma hexDigit_not_bracket: "hexDigit n \<noteq> CHR ''[''"
proof -
  have "hexDigit n \<in> set ''0123456789abcdef''"
    unfolding hexDigit_def by (rule nth_mem) simp
  then show ?thesis by auto
qed

lemma formatHex_hd: "formatHex n \<noteq> [] \<and> hd (formatHex n) \<noteq> CHR ''[''"
proof (induction n rule: formatHex.induct)
  case (1 n)
  show ?case
  proof (cases "n < 16")
    case True
    then show ?thesis
      by (simp add: formatHex.simps [of n] hexDigit_not_bracket)
  next
    case False
    with 1 show ?thesis
      by (simp add: formatHex.simps [of n])
  qed
qed

lemma join_hd:
  "xs \<noteq> [] \<Longrightarrow> hd xs \<noteq> [] \<Longrightarrow> join sep xs \<noteq> [] \<and> hd (join sep xs) = hd (hd xs)"
  by (cases "(sep, xs)" rule: join.cases) auto

lemma join_map_hd:
  assumes "\<And>x. f x \<noteq> [] \<and> hd (f x) \<noteq> CHR ''[''"
  shows "join sep (map f xs) = [] \<or> hd (join sep (map f xs)) \<noteq> CHR ''[''"
proof (cases xs)
  case Nil
  then show ?thesis by simp
next
  case (Cons x xs')
  then have "hd (join sep (map f xs)) = hd (f x)"
    using join_hd [of "map f xs" sep] assms by simp
  then show ?thesis using assms by simp
qed

lemma hd_append_either:
  "(a = [] \<or> hd a \<noteq> c) \<Longrightarrow> b \<noteq> [] \<Longrightarrow> hd b \<noteq> c \<Longrightarrow> hd (a @ b) \<noteq> c"
  by (cases a) auto

lemma IP_String_hd: "IP_String ip = [] \<or> hd (IP_String ip) \<noteq> CHR ''[''"
proof (cases "length ip = 0")
  case True
  then show ?thesis by (simp add: IP_String_def)
next
  case nonempty: False
  show ?thesis
  proof (cases "To4 ip")
    case (Some p4)
    then show ?thesis
      using nonempty join_map_hd [of "\<lambda>b. formatUint (unat b)" "''.''" p4] formatUint_hd
      by (simp add: IP_String_def)
  next
    case None
    show ?thesis
    proof (cases "length ip = 16")
      case False
      with None nonempty show ?thesis by (simp add: IP_String_def)
    next
      case True
      obtain start len where run: "longestZeroRun (groups16 ip) = (start, len)"
        by (cases "longestZeroRun (groups16 ip)")
      show ?thesis
      proof (cases "len = 0")
        case True
        with None nonempty \<open>length ip = 16\<close> run show ?thesis
          using join_map_hd [of formatHex "'':''" "groups16 ip"] formatHex_hd
          by (simp add: IP_String_def Let_def)
      next
        case False
        have "hd (join '':'' (map formatHex (take start (groups16 ip))) @
                  ('':'' @ CHR '':'' # join '':'' (map formatHex (drop (start + len) (groups16 ip)))))
              \<noteq> CHR ''[''"
          using join_map_hd [of formatHex "'':''" "take start (groups16 ip)"] formatHex_hd
          by (intro hd_append_either) auto
        with None nonempty \<open>length ip = 16\<close> run False show ?thesis
          by (simp add: IP_String_def Let_def)
      qed
    qed
  qed
qed

lemma IP_String_allowed4: "IP_String ip_allowed4 = ''192.0.2.7''"
  by (simp add: IP_String_def ip_allowed4_def To4_def formatUint.simps decDigit_def)

lemma IP_String_allowed6: "IP_String ip_allowed6 = ''2001:db8::1''"
  by (simp add: IP_String_def To4_def ip_allowed6_def Let_def longestZeroRun_def zeroRunAt_def
      upt_rec_numeral formatHex.simps hexDigit_def)

lemma Port_scraper_udp4: "Port (u scraper_udp4) = ''6969''"
  by (simp add: Port_def splitHostPort_def scraper_udp4_def validOptionalPort_def isDigit_def)

lemma Port_scraper_http: "Port (u scraper_http) = []"
  by (simp add: Port_def splitHostPort_def scraper_http_def validOptionalPort_def)

text \<open>
  C5, as the claim states it, fails for a URL without a port: the endpoint string is the
  URL as it was, with the host name and without the resolved address.
\<close>

theorem trackerUrl_no_port_counterexample:
  "trackerUrl scraper_http ip_allowed4 = ''http://tracker.example.com/announce''
   \<and> IP_String ip_allowed4 = ''192.0.2.7''
   \<and> trackerUrl scraper_http ip_allowed4 \<noteq>
       URL_String ((u scraper_http)\<lparr>Host := IP_String ip_allowed4\<rparr>)"
proof -
  have "trackerUrl scraper_http ip_allowed4 = URL_String (u scraper_http)"
    by (simp add: trackerUrl_def Port_scraper_http)
  moreover have "URL_String (u scraper_http) = ''http://tracker.example.com/announce''"
    by (simp add: URL_String_def scraper_http_def)
  moreover have "URL_String ((u scraper_http)\<lparr>Host := IP_String ip_allowed4\<rparr>) =
      ''http://192.0.2.7/announce''"
    by (simp add: IP_String_allowed4 URL_String_def scraper_http_def)
  ultimately show ?thesis by (simp add: IP_String_allowed4)
qed

text \<open>
  C5, amended. When the URL has an explicit port, the endpoint string is the URL with its
  host replaced by the resolved address joined with that port: the host name of the
  rewritten URL is the text of the address and its port is the port of the original.
  When the URL has no explicit port, the endpoint string is the URL unchanged.
\<close>

theorem trackerUrl_substitution:
  "(Port (u me) \<noteq> [] \<longrightarrow>
      trackerUrl me ip = URL_String ((u me)\<lparr>Host := JoinHostPort (IP_String ip) (Port (u me))\<rparr>)
      \<and> Hostname ((u me)\<lparr>Host := JoinHostPort (IP_String ip) (Port (u me))\<rparr>) = IP_String ip
      \<and> Port ((u me)\<lparr>Host := JoinHostPort (IP_String ip) (Port (u me))\<rparr>) = Port (u me))
   \<and> (Port (u me) = [] \<longrightarrow> trackerUrl me ip = URL_String (u me))"
proof -
  have digits: "list_all isDigit (Port (u me))"
    unfolding Port_def by (rule splitHostPort_digits)
  have "CHR '':'' \<in> set (IP_String ip) \<or> IP_String ip = [] \<or> hd (IP_String ip) \<noteq> CHR ''[''"
    using IP_String_hd [of ip] by blast
  with digits have "splitHostPort (JoinHostPort (IP_String ip) (Port (u me))) =
      (IP_String ip, Port (u me))"
    by (rule splitHostPort_JoinHostPort)
  then have "Hostname ((u me)\<lparr>Host := JoinHostPort (IP_String ip) (Port (u me))\<rparr>) = IP_String ip"
    and "Port ((u me)\<lparr>Host := JoinHostPort (IP_String ip) (Port (u me))\<rparr>) = Port (u me)"
    by (simp_all add: Hostname_def Port_def)
  then show ?thesis
    by (simp add: trackerUrl_def Let_def)
qed

theorem trackerUrl_substitution_witness:
  "trackerUrl scraper_udp4 ip_allowed4 = ''udp4://192.0.2.7:6969/announce''
   \<and> trackerUrl scraper_udp4 ip_allowed6 = ''udp4://[2001:db8::1]:6969/announce''
   \<and> trackerUrl scraper_http ip_allowed4 = URL_String (u scraper_http)"
proof -
  have port: "Port (u scraper_udp4) \<noteq> []" by (simp add: Port_scraper_udp4)
  have 4: "URL_String ((u scraper_udp4)
      \<lparr>Host := JoinHostPort (IP_String ip_allowed4) (Port (u scraper_udp4))\<rparr>) =
      ''udp4://192.0.2.7:6969/announce''"
    by (simp only: IP_String_allowed4 Port_scraper_udp4)
      (simp add: URL_String_def JoinHostPort_def scraper_udp4_def)
  have 6: "URL_String ((u scraper_udp4)
      \<lparr>Host := JoinHostPort (IP_String ip_allowed6) (Port (u scraper_udp4))\<rparr>) =
      ''udp4://[2001:db8::1]:6969/announce''"
    by (simp only: IP_String_allowed6 Port_scraper_udp4)
      (simp add: URL_String_def JoinHostPort_def scraper_udp4_def)
  from trackerUrl_substitution [of scraper_udp4 ip_allowed4] port 4
  have a: "trackerUrl scraper_udp4 ip_allowed4 = ''udp4://192.0.2.7:6969/announce''"
    by simp
  from trackerUrl_substitution [of scraper_udp4 ip_allowed6] port 6
  have b: "trackerUrl scraper_udp4 ip_allowed6 = ''udp4://[2001:db8::1]:6969/announce''"
    by simp
  from trackerUrl_substitution [of scraper_http ip_allowed4] Port_scraper_http
  have c: "trackerUrl scraper_http ip_allowed4 = URL_String (u scraper_http)"
    by simp
  from a b c show ?thesis by blast
qed

subsection \<open>The status line\<close>












lemma Until_positive: "0 < Until t now \<longleftrightarrow> now < t"
  by (simp add: Until_def Time_Sub_def minDuration_def maxDuration_def)

lemma Until_nonpositive: "Until t now \<le> 0 \<longleftrightarrow> t \<le> now"
  by (simp add: Until_def Time_Sub_def minDuration_def maxDuration_def)


lemma statusLine_next_past:
  assumes "Time_Add (Completed (lastAnnounce ts)) (Interval (lastAnnounce ts)) \<le> now"
  shows "statusLine_next ts now = ''anytime''"
  using assms by (simp add: statusLine_next_def Let_def Until_positive)











subsection \<open>The stored interval\<close>

text \<open>
  C10. After a successful attempt the interval of the result is the tracker's count of
  seconds times one second, whatever its size, and the loop stores the result as it is.
  The floor of one minute enters only where the loop computes its wait. So when the
  tracker's interval is below one minute, the loop waits until one minute after the
  completion time, while the status line, which adds the stored interval to the completion
  time, shows \<^verbatim>\<open>anytime\<close> from the end of the stored interval on.
\<close>

theorem stored_interval_not_floored:
  assumes "Err (fst (announce w me e)) = None"
  shows "(\<exists>ip a res. getIp w me = (ip, None) \<and> Do w a = Inr res \<and>
            TrackerUrl a = trackerUrl me ip \<and>
            Interval (fst (announce w me e)) = sint (ResInterval res) * Second)
    \<and> lastAnnounce (fst (snd (Run_from me e [w] cs))) = fst (announce w me e)
    \<and> (Interval (fst (announce w me e)) < Minute \<longrightarrow>
         take 2 (fst (Run_from me e (w # ws) (c # cs'))) =
           [Announced e (fst (announce w me e)),
            Wait Minute (Time_Add (Completed (fst (announce w me e))) Minute)]
         \<and> (\<forall>now. Time_Add (Completed (fst (announce w me e)))
                     (Interval (fst (announce w me e))) \<le> now \<and>
                   now < Time_Add (Completed (fst (announce w me e))) Minute \<longrightarrow>
               statusLine_next (fst (snd (Run_from me e [w] cs))) now = ''anytime''))"
proof (intro conjI impI allI)
  from announce_succeeded [OF assms]
  show "\<exists>ip a res. getIp w me = (ip, None) \<and> Do w a = Inr res \<and>
            TrackerUrl a = trackerUrl me ip \<and>
            Interval (fst (announce w me e)) = sint (ResInterval res) * Second"
    by blast
next
  show "lastAnnounce (fst (snd (Run_from me e [w] cs))) = fst (announce w me e)"
    by (simp add: Run_from_stores)
next
  assume "Interval (fst (announce w me e)) < Minute"
  then have "Run_interval (fst (announce w me e)) = Minute"
    by (simp add: Run_interval_def)
  then show "take 2 (fst (Run_from me e (w # ws) (c # cs'))) =
      [Announced e (fst (announce w me e)),
       Wait Minute (Time_Add (Completed (fst (announce w me e))) Minute)]"
    by (simp add: Run_from_first_wait)
next
  fix now
  assume "Time_Add (Completed (fst (announce w me e))) (Interval (fst (announce w me e))) \<le> now \<and>
      now < Time_Add (Completed (fst (announce w me e))) Minute"
  then have "Time_Add (Completed (lastAnnounce (fst (snd (Run_from me e [w] cs)))))
      (Interval (lastAnnounce (fst (snd (Run_from me e [w] cs))))) \<le> now"
    by (simp add: Run_from_stores)
  then show "statusLine_next (fst (snd (Run_from me e [w] cs))) now = ''anytime''"
    by (rule statusLine_next_past)
qed

theorem stored_interval_not_floored_witness:
  "Interval (fst (announce world_eager scraper_udp4 Started)) = 10 * Second
   \<and> Interval (lastAnnounce (fst (snd (Run_from scraper_udp4 Started [world_eager] [])))) =
       10 * Second
   \<and> take 2 (fst (Run_from scraper_udp4 Started [world_eager, world_eager] [cycle_timer])) =
       [Announced Started (fst (announce world_eager scraper_udp4 Started)),
        Wait (60 * Second) (5060 * Second)]
   \<and> statusLine_next (fst (snd (Run_from scraper_udp4 Started [world_eager] [])))
        (5030 * Second) = ''anytime''"
proof -
  have ip: "getIp world_eager scraper_udp4 = (ip_allowed4, None)"
    by (simp add: getIp_def world_eager_def scraper_udp4_def To4_def ip_allowed4_def)
  then have body: "announce_body world_eager scraper_udp4 Started =
      (\<lparr>Err = None, NumPeers = 2, Interval = 10 * Second, Completed = 0\<rparr>, two_peers,
       Answered world_eager)"
    by (simp add: announce_body_def world_eager_def two_peers_def)
  have answered: "reading (Answered world_eager) = 5000 * Second"
    by (simp add: world_eager_def reading_instant_of Second_def)
  from body have ok: "Err (fst (announce world_eager scraper_udp4 Started)) = None"
    and short: "Interval (fst (announce world_eager scraper_udp4 Started)) = 10 * Second"
    by (simp_all add: announce_fields)
  from body answered
  have clock: "Completed (fst (announce world_eager scraper_udp4 Started)) = 5000 * Second"
    by (simp add: announce_fields)
  have below: "Interval (fst (announce world_eager scraper_udp4 Started)) < Minute"
    by (simp add: short Minute_def Second_def)
  have window: "Time_Add (Completed (fst (announce world_eager scraper_udp4 Started)))
        (Interval (fst (announce world_eager scraper_udp4 Started))) \<le> 5030 * Second
      \<and> 5030 * Second <
        Time_Add (Completed (fst (announce world_eager scraper_udp4 Started))) Minute"
    by (simp add: short clock Time_Add_def Minute_def Second_def)
  note inst = stored_interval_not_floored [OF ok, of "[]" "[world_eager]" cycle_timer "[]"]
  from inst have stored: "lastAnnounce (fst (snd (Run_from scraper_udp4 Started [world_eager] []))) =
      fst (announce world_eager scraper_udp4 Started)" by blast
  from inst below have first: "take 2 (fst (Run_from scraper_udp4 Started
        [world_eager, world_eager] [cycle_timer])) =
      [Announced Started (fst (announce world_eager scraper_udp4 Started)),
       Wait Minute
         (Time_Add (Completed (fst (announce world_eager scraper_udp4 Started))) Minute)]"
    by blast
  from inst below window
  have anytime: "statusLine_next (fst (snd (Run_from scraper_udp4 Started [world_eager] [])))
        (5030 * Second) = ''anytime''" by blast
  have deadline: "Time_Add (Completed (fst (announce world_eager scraper_udp4 Started))) Minute =
      5060 * Second"
    by (simp add: clock Time_Add_def Minute_def)
  have minute: "Minute = 60 * Second"
    by (simp add: Minute_def)
  from first have first': "take 2 (fst (Run_from scraper_udp4 Started
        [world_eager, world_eager] [cycle_timer])) =
      [Announced Started (fst (announce world_eager scraper_udp4 Started)),
       Wait (60 * Second) (5060 * Second)]"
    unfolding deadline unfolding minute .
  from short stored first' anytime show ?thesis by simp
qed

end
